theory Spec2Isabelle
  imports Complex_Main "HOL-Library.Char_ord" "HOL-Library.List_Lexorder"
    "HOL-Library.Product_Lexorder"
begin

section \<open>Data frames\<close>

text \<open>
  The dashboard script \<^verbatim>\<open>app.py\<close> works on one pandas data frame. A frame is
  modelled as the list of its columns, in column order; a column has a name, a storage
  type and its cells. Numeric cells are exact reals (rounding of floating point numbers
  is not modelled), \<open>NaN\<close> is the marker pandas stores for a missing value.
  Frames read by \<^verbatim>\<open>read_csv\<close>, \<^verbatim>\<open>read_excel\<close> or taken from the sample data have
  pairwise different column names and columns of one common length; \<open>wf_df\<close> says so.
\<close>

datatype dtype = Int64 | Float64 | Bool | Datetime64 | Object

datatype cell = Num real | Str string | NaN

record column =
  cname :: string
  dtype :: dtype
  cells :: "cell list"

type_synonym dataframe = "column list"

datatype py_error = KeyError string | TypeError | ValueError string

definition columns :: "dataframe \<Rightarrow> string list" where
  "columns df = map cname df"

definition len_df :: "dataframe \<Rightarrow> nat" where
  "len_df df = (case df of [] \<Rightarrow> 0 | c # _ \<Rightarrow> length (cells c))"

definition empty_df :: "dataframe \<Rightarrow> bool" where
  "empty_df df = (df = [] \<or> len_df df = 0)"

definition wf_df :: "dataframe \<Rightarrow> bool" where
  "wf_df df = (distinct (columns df) \<and> list_all (\<lambda>c. length (cells c) = len_df df) df)"

text \<open>\<^verbatim>\<open>select_dtypes(include="number")\<close> keeps the integer and floating point columns,
  \<^verbatim>\<open>select_dtypes(exclude="number")\<close> all the others.\<close>

definition is_number :: "dtype \<Rightarrow> bool" where
  "is_number t = (t = Int64 \<or> t = Float64)"

definition select_dtypes_include_number :: "dataframe \<Rightarrow> dataframe" where
  "select_dtypes_include_number df = filter (\<lambda>c. is_number (dtype c)) df"

definition select_dtypes_exclude_number :: "dataframe \<Rightarrow> dataframe" where
  "select_dtypes_exclude_number df = filter (\<lambda>c. \<not> is_number (dtype c)) df"

text \<open>\<^verbatim>\<open>df.head(n)\<close>: the first \<open>n\<close> rows; for a negative \<open>n\<close> all rows but the last
  \<open>-n\<close>.\<close>

definition head :: "int \<Rightarrow> dataframe \<Rightarrow> dataframe" where
  "head n df =
     (let k = (if 0 \<le> n then nat n else len_df df - nat (- n))
      in map (\<lambda>c. c\<lparr>cells := take k (cells c)\<rparr>) df)"

text \<open>\<^verbatim>\<open>df[name]\<close> and \<^verbatim>\<open>df[[name, ...]]\<close>: a name that is no column raises
  \<^verbatim>\<open>KeyError\<close>.\<close>

definition getitem_col :: "dataframe \<Rightarrow> string \<Rightarrow> py_error + column" where
  "getitem_col df n =
     (case find (\<lambda>c. cname c = n) df of None \<Rightarrow> Inl (KeyError n) | Some c \<Rightarrow> Inr c)"

fun getitem_cols :: "dataframe \<Rightarrow> string list \<Rightarrow> py_error + dataframe" where
  "getitem_cols df [] = Inr []"
| "getitem_cols df (n # ns) =
     (case getitem_col df n of
        Inl e \<Rightarrow> Inl e
      | Inr c \<Rightarrow> (case getitem_cols df ns of Inl e \<Rightarrow> Inl e | Inr cs \<Rightarrow> Inr (c # cs)))"

text \<open>\<^verbatim>\<open>Series.unique()\<close>: the different values, in order of first appearance.\<close>

definition unique :: "cell list \<Rightarrow> cell list" where
  "unique xs = rev (remdups (rev xs))"

text \<open>
  Python's \<^verbatim>\<open>sorted\<close> compares the values with \<^verbatim>\<open><\<close>. Between a text and a number
  (the missing marker is the float \<^verbatim>\<open>nan\<close>) that comparison raises \<^verbatim>\<open>TypeError\<close>, and a
  sort of a list holding both kinds has to compare two such values. The sorted list only
  fills the choices of a widget, so the model keeps whether the call raises.
\<close>

definition is_str :: "cell \<Rightarrow> bool" where
  "is_str c = (case c of Str _ \<Rightarrow> True | _ \<Rightarrow> False)"

definition sorted_raises :: "cell list \<Rightarrow> bool" where
  "sorted_raises xs = (list_ex is_str xs \<and> list_ex (\<lambda>c. \<not> is_str c) xs)"

text \<open>\<^verbatim>\<open>Series.isin(values)\<close> and the selection of rows by a boolean mask.\<close>

definition isin :: "cell list \<Rightarrow> cell list \<Rightarrow> bool list" where
  "isin xs vals = map (\<lambda>x. x \<in> set vals) xs"

definition mask_cells :: "bool list \<Rightarrow> cell list \<Rightarrow> cell list" where
  "mask_cells m xs = map fst (filter snd (zip xs m))"

definition getitem_mask :: "dataframe \<Rightarrow> bool list \<Rightarrow> dataframe" where
  "getitem_mask df m = map (\<lambda>c. c\<lparr>cells := mask_cells m (cells c)\<rparr>) df"

section \<open>Column detection and the data filters\<close>

text \<open>
  The values the three filter widgets return: \<open>row_limit\<close> from the number input
  (\<^verbatim>\<open>min_value=1, max_value=len(df)\<close>), \<open>selected_cols\<close> from the multiselect over
  \<^verbatim>\<open>df.columns.tolist()\<close>, \<open>filter_col\<close> from the select box over
  \<^verbatim>\<open>[None] + cat_cols\<close> and \<open>filter_values\<close> from the multiselect over the sorted
  values of that column.
\<close>

record filter_spec =
  row_limit :: int
  selected_cols :: "string list"
  filter_col :: "string option"
  filter_values :: "cell list"

record filtered =
  df_filtered :: dataframe
  num_cols :: "string list"
  cat_cols :: "string list"

text \<open>Lines 113-114: the column detection on the loaded frame.\<close>

definition detect_columns :: "dataframe \<Rightarrow> string list \<times> string list" where
  "detect_columns df =
     (columns (select_dtypes_include_number df), columns (select_dtypes_exclude_number df))"

text \<open>Lines 129-131: the row filter.\<close>

definition row_filter :: "int \<Rightarrow> filtered \<Rightarrow> filtered" where
  "row_filter n s = s\<lparr>df_filtered := head n (df_filtered s)\<rparr>"

text \<open>Lines 134-140: the column filter; an empty selection leaves the frame and both
  column lists as they are.\<close>

definition column_filter :: "string list \<Rightarrow> filtered \<Rightarrow> py_error + filtered" where
  "column_filter sel s =
     (if sel \<noteq> [] then
        (case getitem_cols (df_filtered s) sel of
           Inl e \<Rightarrow> Inl e
         | Inr d \<Rightarrow> Inr \<lparr>df_filtered = d,
                        num_cols = filter (\<lambda>col. col \<in> set sel) (num_cols s),
                        cat_cols = filter (\<lambda>col. col \<in> set sel) (cat_cols s)\<rparr>)
      else Inr s)"

text \<open>Lines 143-149: the category filter. The choices of the value widget are computed
  (line 147) before the selected values are looked at.\<close>

definition category_filter ::
    "string option \<Rightarrow> cell list \<Rightarrow> filtered \<Rightarrow> py_error + filtered" where
  "category_filter fc fv s =
     (if cat_cols s \<noteq> [] then
        (case fc of
           None \<Rightarrow> Inr s
         | Some c \<Rightarrow>
             (case getitem_col (df_filtered s) c of
                Inl e \<Rightarrow> Inl e
              | Inr col \<Rightarrow>
                  if sorted_raises (unique (cells col)) then Inl TypeError
                  else if fv \<noteq> [] then
                    Inr (s\<lparr>df_filtered := getitem_mask (df_filtered s) (isin (cells col) fv)\<rparr>)
                  else Inr s))
      else Inr s)"

text \<open>Lines 113-149 in sequence.\<close>

definition filter_pipeline :: "dataframe \<Rightarrow> filter_spec \<Rightarrow> py_error + filtered" where
  "filter_pipeline df spec =
     (let s0 = \<lparr>df_filtered = df, num_cols = fst (detect_columns df),
                 cat_cols = snd (detect_columns df)\<rparr>;
          s1 = row_filter (row_limit spec) s0
      in case column_filter (selected_cols spec) s1 of
           Inl e \<Rightarrow> Inl e
         | Inr s2 \<Rightarrow> category_filter (filter_col spec) (filter_values spec) s2)"

text \<open>Line 147 raises for the chosen category column: the frame it reads is the one
  the row filter left, cut down to the selected columns.\<close>

definition value_choices_raise :: "dataframe \<Rightarrow> filter_spec \<Rightarrow> bool" where
  "value_choices_raise df spec =
     (case filter_col spec of
        None \<Rightarrow> False
      | Some c \<Rightarrow>
          (case getitem_col (head (row_limit spec) df) c of
             Inl _ \<Rightarrow> False
           | Inr col \<Rightarrow> sorted_raises (unique (cells col))))"

section \<open>Aggregations\<close>

text \<open>
  \<^verbatim>\<open>df.groupby(x).size()\<close>: the rows whose key is missing are dropped (pandas'
  default \<^verbatim>\<open>dropna=True\<close>), the groups come in ascending key order (numbers before
  texts), each with its number of rows.
\<close>

definition group_rank :: "cell \<Rightarrow> nat \<times> real \<times> string" where
  "group_rank c = (case c of Num r \<Rightarrow> (0, r, []) | Str t \<Rightarrow> (1, 0, t) | NaN \<Rightarrow> (2, 0, []))"

definition groupby_size :: "dataframe \<Rightarrow> string \<Rightarrow> py_error + (cell \<times> nat) list" where
  "groupby_size df x =
     (case getitem_col df x of
        Inl e \<Rightarrow> Inl e
      | Inr col \<Rightarrow>
          (let keys = filter (\<lambda>c. c \<noteq> NaN) (cells col)
           in Inr (map (\<lambda>k. (k, count_list keys k)) (sort_key group_rank (remdups keys)))))"

text \<open>
  \<^verbatim>\<open>DataFrame.corr()\<close>: Pearson's coefficient of every pair of columns, over the rows
  where both columns have a value. pandas converts the columns to double precision and
  fills the matrix pair by pair, the column with the larger position first, storing each
  value at both places of the pair.

  Over fewer than two common rows the value is \<^verbatim>\<open>nan\<close> whatever the arithmetic: without
  a common row the pair is below \<^verbatim>\<open>min_periods\<close>, and with a single one both sums of
  squared deviations are zero, so the divisor is zero. From two common rows on the value
  is what pandas' double precision loop yields on the paired values. That arithmetic
  (rounding, overflow, integers beyond \<open>2^53\<close>) is not modelled: \<open>Pearson_f64 ps\<close> stands
  for its result on the pairs \<open>ps\<close>, which may again be \<^verbatim>\<open>nan\<close> and need not be 1 for a
  column paired with itself.
\<close>

fun paired :: "cell list \<Rightarrow> cell list \<Rightarrow> (real \<times> real) list" where
  "paired (Num a # xs) (Num b # ys) = (a, b) # paired xs ys"
| "paired (_ # xs) (_ # ys) = paired xs ys"
| "paired _ _ = []"

datatype corr_entry = Nan | Pearson_f64 "(real \<times> real) list"

definition pearson :: "cell list \<Rightarrow> cell list \<Rightarrow> corr_entry" where
  "pearson xs ys = (let ps = paired xs ys in if length ps < 2 then Nan else Pearson_f64 ps)"

definition corr :: "dataframe \<Rightarrow> corr_entry list list" where
  "corr df =
     map (\<lambda>i. map (\<lambda>j. pearson (cells (df ! max i j)) (cells (df ! min i j)))
                 [0..<length df])
         [0..<length df]"

section \<open>The chart tab\<close>

datatype chart_type =
  Bar | Line | Scatter | Histogram | Box_Plot | Pie | Donut | Sunburst | Heatmap | Violin | Area

text \<open>
  What a branch hands to plotly: the function called and its arguments next to the
  frame (\<open>x\<close>, \<open>y\<close>, \<open>color\<close>; values, names, hole and title of a pie; path, values and
  title of a sunburst; the labelled correlation matrix of a heatmap).
\<close>

datatype figure =
    Px_bar string string "string option"
  | Px_line string string "string option"
  | Px_scatter string string "string option"
  | Px_histogram string "string option"
  | Px_box string string "string option"
  | Px_pie "nat list" "cell list" "real option" string
  | Px_sunburst string string string
  | Px_imshow "string list" "corr_entry list list"
  | Px_violin string string "string option"
  | Px_area string string "string option"

text \<open>
  The three ways the chart tab ends: the figure is shown (\<^verbatim>\<open>st.plotly_chart\<close>), the
  branch set \<^verbatim>\<open>error_msg\<close> and it is shown as a warning, or an exception was raised
  inside the \<^verbatim>\<open>try\<close> block and is reported by \<^verbatim>\<open>st.error\<close>.
\<close>

datatype chart_result = Success figure | Failure string | Fault py_error

text \<open>The two symbols the messages start with, as their UTF-8 bytes (U+26A0 U+FE0F and
  U+274C).\<close>

definition warning_sign :: string where
  "warning_sign = [CHR 0xE2, CHR 0x9A, CHR 0xA0, CHR 0xEF, CHR 0xB8, CHR 0x8F]"

definition cross_mark :: string where
  "cross_mark = [CHR 0xE2, CHR 0x9D, CHR 0x8C]"

text \<open>
  A plotly express call on the frame raises \<^verbatim>\<open>ValueError\<close> for an argument that names
  no column of the frame. This is the only error of plotly the model knows: what else
  plotly may raise on the data it is given, and report through the \<^verbatim>\<open>except\<close> clause,
  is not modelled, so a \<open>Success\<close> that \<open>px\<close> returns says that the branch made the call with
  these arguments and columns that exist.
\<close>

definition opt_arg :: "string option \<Rightarrow> string list" where
  "opt_arg g = (case g of None \<Rightarrow> [] | Some c \<Rightarrow> [c])"

definition px :: "dataframe \<Rightarrow> string list \<Rightarrow> figure \<Rightarrow> chart_result" where
  "px df args fig =
     (case find (\<lambda>a. a \<notin> set (columns df)) args of
        Some a \<Rightarrow> Fault (ValueError a)
      | None \<Rightarrow> Success fig)"

definition select_y_msg :: string where
  "select_y_msg = warning_sign @ '' Please select a numeric Y axis''"

definition not_numeric_msg :: "string \<Rightarrow> string" where
  "not_numeric_msg x = warning_sign @ '' X axis '' @ [CHR 0x27] @ x @ [CHR 0x27] @ '' is not numeric''"

definition not_categorical_msg :: "string \<Rightarrow> string" where
  "not_categorical_msg x =
     warning_sign @ '' X axis '' @ [CHR 0x27] @ x @ [CHR 0x27] @ '' is not categorical''"

definition no_data_msg :: string where
  "no_data_msg = warning_sign @ '' No data to display''"

text \<open>The pie and the donut branch differ in the hole only.\<close>

definition pie_chart :: "filtered \<Rightarrow> string \<Rightarrow> real option \<Rightarrow> chart_result" where
  "pie_chart s x hole =
     (if x \<notin> set (cat_cols s) then Failure (not_categorical_msg x)
      else (case groupby_size (df_filtered s) x of
              Inl e \<Rightarrow> Fault e
            | Inr agg_data \<Rightarrow>
                if length agg_data > 0
                then Success (Px_pie (map snd agg_data) (map fst agg_data) hole
                                (''Distribution of '' @ x))
                else Failure no_data_msg))"

text \<open>Lines 233-333: the branch of the selected chart type.\<close>

definition build_chart ::
    "filtered \<Rightarrow> chart_type \<Rightarrow> string \<Rightarrow> string option \<Rightarrow> string option \<Rightarrow> chart_result" where
  "build_chart s chart x_axis y_axis group_by =
     (let d = df_filtered s in
      case chart of
        Bar \<Rightarrow>
          (case y_axis of
             Some y \<Rightarrow> px d (x_axis # y # opt_arg group_by) (Px_bar x_axis y group_by)
           | None \<Rightarrow> Failure select_y_msg)
      | Line \<Rightarrow>
          (case y_axis of
             Some y \<Rightarrow> px d (x_axis # y # opt_arg group_by) (Px_line x_axis y group_by)
           | None \<Rightarrow> Failure select_y_msg)
      | Scatter \<Rightarrow>
          (case y_axis of
             None \<Rightarrow> Failure select_y_msg
           | Some y \<Rightarrow>
               if x_axis \<notin> set (num_cols s)
               then Failure (not_numeric_msg x_axis @ ''. Scatter needs numeric X & Y'')
               else px d (x_axis # y # opt_arg group_by) (Px_scatter x_axis y group_by))
      | Histogram \<Rightarrow>
          (if x_axis \<in> set (num_cols s)
           then px d (x_axis # opt_arg group_by) (Px_histogram x_axis group_by)
           else Failure (not_numeric_msg x_axis))
      | Box_Plot \<Rightarrow>
          (case y_axis of
             None \<Rightarrow> Failure select_y_msg
           | Some y \<Rightarrow>
               if x_axis \<notin> set (cat_cols s) then Failure (not_categorical_msg x_axis)
               else px d (x_axis # y # opt_arg group_by) (Px_box x_axis y group_by))
      | Pie \<Rightarrow> pie_chart s x_axis None
      | Donut \<Rightarrow> pie_chart s x_axis (Some (3 / 10))
      | Sunburst \<Rightarrow>
          (case y_axis of
             None \<Rightarrow> Failure (warning_sign @ '' Sunburst needs categorical X and numeric Y'')
           | Some y \<Rightarrow>
               if x_axis \<notin> set (cat_cols s) \<or> y \<notin> set (num_cols s)
               then Failure (warning_sign @ '' Sunburst needs categorical X and numeric Y'')
               else px d [x_axis, y] (Px_sunburst x_axis y (''Sunburst: '' @ x_axis)))
      | Heatmap \<Rightarrow>
          (if length (num_cols s) < 2
           then Failure (warning_sign @ '' Heatmap needs at least 2 numeric columns'')
           else (case getitem_cols d (num_cols s) of
                   Inl e \<Rightarrow> Fault e
                 | Inr sub \<Rightarrow> Success (Px_imshow (columns sub) (corr sub))))
      | Violin \<Rightarrow>
          (case y_axis of
             None \<Rightarrow> Failure select_y_msg
           | Some y \<Rightarrow>
               if x_axis \<notin> set (cat_cols s) then Failure (not_categorical_msg x_axis)
               else px d (x_axis # y # opt_arg group_by) (Px_violin x_axis y group_by))
      | Area \<Rightarrow>
          (case y_axis of
             Some y \<Rightarrow> px d (x_axis # y # opt_arg group_by) (Px_area x_axis y group_by)
           | None \<Rightarrow> Failure select_y_msg))"

text \<open>Lines 217-228: the choices the three select boxes of the chart tab offer.\<close>

definition x_options :: "filtered \<Rightarrow> string list" where
  "x_options s =
     (let all_cols = num_cols s @ cat_cols s
      in if all_cols \<noteq> [] then all_cols else [''No columns''])"

definition y_options :: "filtered \<Rightarrow> string option list" where
  "y_options s = (if num_cols s \<noteq> [] then None # map Some (num_cols s) else [None])"

definition group_options :: "filtered \<Rightarrow> string option list" where
  "group_options s = (if cat_cols s \<noteq> [] then None # map Some (cat_cols s) else [None])"

record chart_request =
  chart_kind :: chart_type
  x_axis :: string
  y_axis :: "string option"
  group_by :: "string option"

text \<open>A select box returns one of its choices.\<close>

definition selectable :: "filtered \<Rightarrow> chart_request \<Rightarrow> bool" where
  "selectable s r =
     (x_axis r \<in> set (x_options s) \<and> y_axis r \<in> set (y_options s) \<and>
      group_by r \<in> set (group_options s))"

section \<open>The script from the loaded frame on\<close>

datatype notice = St_error string | St_warning string

datatype outcome = Stopped notice | Raised py_error | Displayed filtered chart_result

text \<open>
  Lines 101-156 and the chart tab: \<^verbatim>\<open>st.stop()\<close> ends the run after its notice, an
  exception of the filter section is not caught, and the tabs are reached with a frame
  that has rows.
\<close>

definition run_dashboard :: "dataframe \<Rightarrow> filter_spec \<Rightarrow> chart_request \<Rightarrow> outcome" where
  "run_dashboard df spec r =
     (if empty_df df \<or> len_df df = 0 then Stopped (St_error (cross_mark @ '' Dataset is empty!''))
      else if fst (detect_columns df) = [] \<and> snd (detect_columns df) = []
      then Stopped (St_error (cross_mark @ '' No valid columns found in dataset!''))
      else (case filter_pipeline df spec of
              Inl e \<Rightarrow> Raised e
            | Inr s \<Rightarrow>
                if empty_df (df_filtered s) \<or> len_df (df_filtered s) = 0
                then Stopped (St_warning
                  (warning_sign @ '' No data matches your filters. Please adjust filters.''))
                else Displayed s
                  (build_chart s (chart_kind r) (x_axis r) (y_axis r) (group_by r))))"

section \<open>Auxiliary notions\<close>

text \<open>The names and storage types of a frame; the row operations leave them alone.\<close>

definition schema :: "dataframe \<Rightarrow> (string \<times> dtype) list" where
  "schema df = map (\<lambda>c. (cname c, dtype c)) df"

section \<open>Example frames\<close>

text \<open>The frame of the specification's end-to-end scenario, and the same frame with a
  missing region in its second row.\<close>

definition sales_df :: dataframe where
  "sales_df =
     [\<lparr>cname = ''Region'', dtype = Object,
        cells = [Str ''North'', Str ''South'', Str ''North'']\<rparr>,
      \<lparr>cname = ''Sales'', dtype = Int64, cells = [Num 10, Num 20, Num 30]\<rparr>]"

definition gaps_df :: dataframe where
  "gaps_df =
     [\<lparr>cname = ''Region'', dtype = Object, cells = [Str ''North'', NaN, Str ''North'']\<rparr>,
      \<lparr>cname = ''Sales'', dtype = Int64, cells = [Num 10, Num 20, Num 30]\<rparr>]"

text \<open>The widgets as the page first shows them (all rows, all columns, no category),
  and with one widget changed.\<close>

definition defaults :: filter_spec where
  "defaults =
     \<lparr>row_limit = 3, selected_cols = [''Region'', ''Sales''], filter_col = None,
      filter_values = []\<rparr>"

definition region_unset :: filter_spec where
  "region_unset = defaults\<lparr>filter_col := Some ''Region''\<rparr>"

definition region_west :: filter_spec where
  "region_west = defaults\<lparr>filter_col := Some ''Region'', filter_values := [Str ''West'']\<rparr>"

definition no_columns :: filter_spec where
  "no_columns = defaults\<lparr>selected_cols := []\<rparr>"

definition region_south :: filter_spec where
  "region_south = defaults\<lparr>filter_col := Some ''Region'', filter_values := [Str ''South'']\<rparr>"




section \<open>Frames: basic facts\<close>

lemma columns_head [simp]: "columns (head n df) = columns df"
  by (simp add: columns_def head_def Let_def comp_def)

lemma columns_getitem_mask [simp]: "columns (getitem_mask df m) = columns df"
  by (simp add: columns_def getitem_mask_def comp_def)

lemma getitem_col_Inr: "getitem_col df n = Inr c \<Longrightarrow> c \<in> set df \<and> cname c = n"
  by (auto simp: getitem_col_def find_Some_iff split: option.splits)

lemma getitem_col_Inl: "getitem_col df n = Inl e \<Longrightarrow> n \<notin> set (columns df)"
  by (auto simp: getitem_col_def columns_def find_None_iff split: option.splits)

lemma getitem_col_mem: "n \<in> set (columns df) \<Longrightarrow> \<exists>c. getitem_col df n = Inr c"
  by (cases "getitem_col df n") (auto dest: getitem_col_Inl)

lemma getitem_cols_Inr:
  "getitem_cols df sel = Inr d \<Longrightarrow> columns d = sel \<and> set d \<subseteq> set df"
proof (induction sel arbitrary: d)
  case Nil
  then show ?case by (simp add: columns_def)
next
  case (Cons n ns)
  then show ?case
    by (auto simp: columns_def split: sum.splits dest: getitem_col_Inr)
qed

lemma getitem_cols_total:
  "set sel \<subseteq> set (columns df) \<Longrightarrow> \<exists>d. getitem_cols df sel = Inr d"
proof (induction sel)
  case Nil
  then show ?case by simp
next
  case (Cons n ns)
  then obtain c d where "getitem_col df n = Inr c" "getitem_cols df ns = Inr d"
    using getitem_col_mem by fastforce
  then show ?case by simp
qed

lemma getitem_cols_map:
  "getitem_cols df sel = Inr d \<Longrightarrow> d = map (\<lambda>n. the (find (\<lambda>c. cname c = n) df)) sel"
  by (induction sel arbitrary: d) (auto simp: getitem_col_def split: sum.splits option.splits)

lemma wf_name_dtype:
  "distinct (columns df) \<Longrightarrow> c \<in> set df \<Longrightarrow> c' \<in> set df \<Longrightarrow> cname c = cname c' \<Longrightarrow> c = c'"
  by (metis columns_def distinct_map inj_onD)

lemma schema_head [simp]: "schema (head n df) = schema df"
  by (simp add: schema_def head_def Let_def comp_def)

lemma schema_getitem_mask [simp]: "schema (getitem_mask df m) = schema df"
  by (simp add: schema_def getitem_mask_def comp_def)

lemma columns_schema: "columns df = map fst (schema df)"
  by (simp add: columns_def schema_def comp_def)

lemma detect_schema:
  "fst (detect_columns df) = map fst (filter (\<lambda>p. is_number (snd p)) (schema df))"
  "snd (detect_columns df) = map fst (filter (\<lambda>p. \<not> is_number (snd p)) (schema df))"
  by (simp_all add: detect_columns_def columns_def schema_def select_dtypes_include_number_def
      select_dtypes_exclude_number_def filter_map comp_def)

lemma detect_union:
  "set (fst (detect_columns df)) \<union> set (snd (detect_columns df)) = set (columns df)"
  by (auto simp: detect_schema columns_schema)

lemma detect_disjoint:
  assumes "distinct (columns df)"
  shows "set (fst (detect_columns df)) \<inter> set (snd (detect_columns df)) = {}"
proof -
  have "distinct (map fst (schema df))" using assms by (simp add: columns_schema)
  then have "\<And>a t u. (a, t) \<in> set (schema df) \<Longrightarrow> (a, u) \<in> set (schema df) \<Longrightarrow> t = u"
    by (meson eq_key_imp_eq_value)
  then show ?thesis by (fastforce simp: detect_schema)
qed

lemma schema_getitem_cols:
  assumes "getitem_cols df sel = Inr d" "distinct (columns df)"
  shows "set (schema d) = {p \<in> set (schema df). fst p \<in> set sel}"
proof -
  have sub: "set d \<subseteq> set df" and cols: "columns d = sel"
    using getitem_cols_Inr[OF assms(1)] by auto
  show ?thesis
  proof (intro equalityI subsetI)
    fix p assume "p \<in> set (schema d)"
    then obtain c where c: "c \<in> set d" "p = (cname c, dtype c)" by (auto simp: schema_def)
    then have "cname c \<in> set sel" using cols by (auto simp: columns_def)
    then show "p \<in> {p \<in> set (schema df). fst p \<in> set sel}"
      using c sub by (auto simp: schema_def)
  next
    fix p assume "p \<in> {p \<in> set (schema df). fst p \<in> set sel}"
    then obtain c where c: "c \<in> set df" "p = (cname c, dtype c)" "cname c \<in> set sel"
      by (auto simp: schema_def)
    then obtain c' where c': "c' \<in> set d" "cname c' = cname c"
      using cols by (auto simp: columns_def)
    then have "c' = c" using wf_name_dtype[OF assms(2)] sub c(1) by blast
    then show "p \<in> set (schema d)" using c c' by (auto simp: schema_def)
  qed
qed

section \<open>The state the filters leave\<close>

lemma pipeline_shape:
  assumes "filter_pipeline df spec = Inr s"
  shows "\<exists>d2. (df_filtered s = d2 \<or> (\<exists>m. df_filtered s = getitem_mask d2 m)) \<and>
     (if selected_cols spec = []
      then d2 = head (row_limit spec) df \<and> num_cols s = fst (detect_columns df) \<and>
           cat_cols s = snd (detect_columns df)
      else getitem_cols (head (row_limit spec) df) (selected_cols spec) = Inr d2 \<and>
           num_cols s = filter (\<lambda>c. c \<in> set (selected_cols spec)) (fst (detect_columns df)) \<and>
           cat_cols s = filter (\<lambda>c. c \<in> set (selected_cols spec)) (snd (detect_columns df)))"
  using assms
  by (auto simp: filter_pipeline_def Let_def column_filter_def row_filter_def category_filter_def
      split: sum.splits if_splits option.splits)

lemma pipeline_schema:
  assumes "wf_df df" "filter_pipeline df spec = Inr s"
  shows "set (schema (df_filtered s)) =
           (if selected_cols spec = [] then set (schema df)
            else {p \<in> set (schema df). fst p \<in> set (selected_cols spec)})"
proof -
  from pipeline_shape[OF assms(2)] obtain d2 where
    full: "(df_filtered s = d2 \<or> (\<exists>m. df_filtered s = getitem_mask d2 m)) \<and>
     (if selected_cols spec = []
      then d2 = head (row_limit spec) df \<and> num_cols s = fst (detect_columns df) \<and>
           cat_cols s = snd (detect_columns df)
      else getitem_cols (head (row_limit spec) df) (selected_cols spec) = Inr d2 \<and>
           num_cols s = filter (\<lambda>c. c \<in> set (selected_cols spec)) (fst (detect_columns df)) \<and>
           cat_cols s = filter (\<lambda>c. c \<in> set (selected_cols spec)) (snd (detect_columns df)))"
    by blast
  have d: "df_filtered s = d2 \<or> (\<exists>m. df_filtered s = getitem_mask d2 m)"
    using full by simp
  have sh: "if selected_cols spec = [] then d2 = head (row_limit spec) df
         else getitem_cols (head (row_limit spec) df) (selected_cols spec) = Inr d2"
    using full by (simp split: if_splits)
  have eq: "schema (df_filtered s) = schema d2" using d by auto
  show ?thesis
  proof (cases "selected_cols spec = []")
    case True
    then show ?thesis using sh eq by simp
  next
    case False
    then have g: "getitem_cols (head (row_limit spec) df) (selected_cols spec) = Inr d2"
      using sh by simp
    have "distinct (columns (head (row_limit spec) df))" using assms(1) by (simp add: wf_df_def)
    from schema_getitem_cols[OF g this] show ?thesis using False eq by simp
  qed
qed

lemma pipeline_cols:
  assumes "filter_pipeline df spec = Inr s"
  shows "set (num_cols s) =
           (if selected_cols spec = [] then set (fst (detect_columns df))
            else {c \<in> set (fst (detect_columns df)). c \<in> set (selected_cols spec)})"
    and "set (cat_cols s) =
           (if selected_cols spec = [] then set (snd (detect_columns df))
            else {c \<in> set (snd (detect_columns df)). c \<in> set (selected_cols spec)})"
  using pipeline_shape[OF assms] by (auto split: if_splits)

lemma pipeline_classified:
  assumes "wf_df df" "filter_pipeline df spec = Inr s"
  shows "set (num_cols s) = set (fst (detect_columns (df_filtered s)))"
    and "set (cat_cols s) = set (snd (detect_columns (df_filtered s)))"
  using pipeline_schema[OF assms] pipeline_cols[OF assms(2)]
  by (auto simp: detect_schema split: if_splits) 

lemma pipeline_distinct:
  assumes "wf_df df" "filter_pipeline df spec = Inr s"
  shows "set (num_cols s) \<inter> set (cat_cols s) = {}"
  using pipeline_cols[OF assms(2)] detect_disjoint[of df] assms(1)
  by (auto simp: wf_df_def split: if_splits)

lemma len_df_le: "\<forall>c\<in>set df. length (cells c) \<le> L \<Longrightarrow> len_df df \<le> L"
  by (cases df) (auto simp: len_df_def)

lemma head_lengths:
  assumes "wf_df df" "0 \<le> n"
  shows "\<forall>c\<in>set (head n df). length (cells c) = min (nat n) (len_df df)"
  using assms by (auto simp: wf_df_def head_def list_all_iff)

lemma mask_cells_length: "length (mask_cells m xs) \<le> length xs"
proof -
  have "length (filter snd (zip xs m)) \<le> length (zip xs m)" by (rule length_filter_le)
  then show ?thesis by (simp add: mask_cells_def)
qed

lemma getitem_mask_lengths:
  "\<forall>c\<in>set df. length (cells c) \<le> L \<Longrightarrow> \<forall>c\<in>set (getitem_mask df m). length (cells c) \<le> L"
proof -
  assume a: "\<forall>c\<in>set df. length (cells c) \<le> L"
  have "length (mask_cells m (cells c)) \<le> L" if "c \<in> set df" for c
    using mask_cells_length[of m "cells c"] a that by fastforce
  then show ?thesis by (auto simp: getitem_mask_def)
qed

lemma getitem_col_sub:
  assumes "set d \<subseteq> set df" "distinct (columns df)" "n \<in> set (columns d)"
  shows "getitem_col d n = getitem_col df n"
proof -
  obtain c where c: "getitem_col d n = Inr c" using getitem_col_mem[OF assms(3)] by blast
  then have cd: "c \<in> set d" "cname c = n" using getitem_col_Inr by auto
  then have "n \<in> set (columns df)" using assms(1) by (auto simp: columns_def)
  then obtain c' where c': "getitem_col df n = Inr c'" using getitem_col_mem by blast
  then have "c' \<in> set df" "cname c' = n" using getitem_col_Inr by auto
  then have "c' = c" using wf_name_dtype[OF assms(2)] cd assms(1) by blast
  then show ?thesis using c c' by simp
qed

lemma detect_nonempty: "df \<noteq> [] \<Longrightarrow> \<not> (fst (detect_columns df) = [] \<and> snd (detect_columns df) = [])"
  by (cases df) (auto simp: detect_columns_def columns_def select_dtypes_include_number_def
      select_dtypes_exclude_number_def)

lemma category_filter_no_values:
  "category_filter fc [] s = Inr s \<or> (\<exists>e. category_filter fc [] s = Inl e)"
  by (simp add: category_filter_def split: option.splits sum.splits)

section \<open>Running the filters on their own result\<close>

lemma head_id:
  assumes "0 \<le> n" "\<forall>c\<in>set v. length (cells c) \<le> nat n"
  shows "head n v = v"
  using assms by (auto simp: head_def intro!: map_idI)

lemma getitem_col_map:
  assumes "\<And>c. cname (f c) = cname c"
  shows "getitem_col (map f df) n = map_sum id f (getitem_col df n)"
  by (induction df) (auto simp: getitem_col_def assms)

lemma getitem_cols_map_frame:
  assumes "\<And>c. cname (f c) = cname c"
  shows "getitem_cols (map f df) sel = map_sum id (map f) (getitem_cols df sel)"
  by (induction sel) (auto simp: getitem_col_map[of f, OF assms] split: sum.splits)

lemma getitem_col_of_cols:
  assumes "getitem_cols df sel = Inr d" "n \<in> set sel"
  shows "getitem_col d n = getitem_col df n"
  using assms
proof (induction sel arbitrary: d)
  case Nil
  then show ?case by simp
next
  case (Cons a as)
  from Cons.prems(1) obtain c cs where c: "getitem_col df a = Inr c"
    and cs: "getitem_cols df as = Inr cs" and d: "d = c # cs"
    by (auto split: sum.splits)
  have ca: "cname c = a" using getitem_col_Inr[OF c] by simp
  show ?case
  proof (cases "n = a")
    case True
    then show ?thesis using c d ca by (simp add: getitem_col_def)
  next
    case False
    then have "n \<in> set as" using Cons.prems(2) by simp
    from Cons.IH[OF cs this] show ?thesis using d ca False by (simp add: getitem_col_def)
  qed
qed

lemma getitem_cols_again:
  assumes "getitem_cols df sel = Inr d"
  shows "getitem_cols d sel = Inr d"
proof -
  have "set xs \<subseteq> set sel \<Longrightarrow> getitem_cols df xs = Inr e \<Longrightarrow> getitem_cols d xs = Inr e" for xs e
  proof (induction xs arbitrary: e)
    case Nil
    then show ?case by simp
  next
    case (Cons a as)
    from Cons.prems(2) obtain c cs where c: "getitem_col df a = Inr c"
      and cs: "getitem_cols df as = Inr cs" and e: "e = c # cs"
      by (auto split: sum.splits)
    have "getitem_col d a = Inr c" using getitem_col_of_cols[OF assms, of a] Cons.prems(1) c by simp
    moreover have "getitem_cols d as = Inr cs" using Cons.IH[OF _ cs] Cons.prems(1) by simp
    ultimately show ?case using e by simp
  qed
  from this[of sel d] assms show ?thesis by simp
qed

lemma mask_cells_own: "mask_cells (map P xs) xs = filter P xs"
  by (induction xs) (auto simp: mask_cells_def)

lemma mask_cells_all:
  assumes "length ys \<le> length m" "\<forall>b\<in>set m. b"
  shows "mask_cells m ys = ys"
proof -
  have "filter snd (zip ys m) = zip ys m"
    using assms(2) by (auto simp: filter_id_conv dest: set_zip_rightD)
  then show ?thesis using assms(1) by (simp add: mask_cells_def map_fst_zip_take)
qed

lemma mask_cells_len:
  assumes "length xs = length m"
  shows "length (mask_cells m xs) = length (filter id m)"
  using assms by (induction xs m rule: list_induct2) (simp_all add: mask_cells_def)

lemma sorted_raises_mono:
  "set xs \<subseteq> set ys \<Longrightarrow> sorted_raises xs \<Longrightarrow> sorted_raises ys"
  by (auto simp: sorted_raises_def list_ex_iff)

lemma set_unique [simp]: "set (unique xs) = set xs"
  by (simp add: unique_def)

lemma pipeline_lengths:
  assumes "wf_df df" "0 \<le> row_limit spec" "filter_pipeline df spec = Inr s"
  shows "\<forall>c\<in>set (df_filtered s). length (cells c) \<le> nat (row_limit spec)"
proof -
  let ?L = "nat (row_limit spec)"
  have h: "\<forall>c\<in>set (head (row_limit spec) df). length (cells c) \<le> ?L"
    using head_lengths[OF assms(1,2)] by simp
  from pipeline_shape[OF assms(3)] obtain d2 where
    full: "(df_filtered s = d2 \<or> (\<exists>m. df_filtered s = getitem_mask d2 m)) \<and>
     (if selected_cols spec = []
      then d2 = head (row_limit spec) df \<and> num_cols s = fst (detect_columns df) \<and>
           cat_cols s = snd (detect_columns df)
      else getitem_cols (head (row_limit spec) df) (selected_cols spec) = Inr d2 \<and>
           num_cols s = filter (\<lambda>c. c \<in> set (selected_cols spec)) (fst (detect_columns df)) \<and>
           cat_cols s = filter (\<lambda>c. c \<in> set (selected_cols spec)) (snd (detect_columns df)))"
    by blast
  have d: "df_filtered s = d2 \<or> (\<exists>m. df_filtered s = getitem_mask d2 m)"
    using full by simp
  have sub: "set d2 \<subseteq> set (head (row_limit spec) df)"
  proof (cases "selected_cols spec = []")
    case True
    then show ?thesis using full by simp
  next
    case False
    then have "getitem_cols (head (row_limit spec) df) (selected_cols spec) = Inr d2"
      using full by simp
    then show ?thesis using getitem_cols_Inr by blast
  qed
  have d2len: "\<forall>c\<in>set d2. length (cells c) \<le> ?L" using h sub by blast
  from d show ?thesis
  proof
    assume "df_filtered s = d2"
    then show ?thesis using d2len by simp
  next
    assume "\<exists>m. df_filtered s = getitem_mask d2 m"
    then obtain m where "df_filtered s = getitem_mask d2 m" by blast
    then show ?thesis using getitem_mask_lengths[OF d2len, of m] by simp
  qed
qed


lemma head_lengths_eq:
  assumes "wf_df df" "0 \<le> n" "set d \<subseteq> set (head n df)"
  shows "\<forall>c\<in>set d. length (cells c) = min (nat n) (len_df df)"
  using head_lengths[OF assms(1,2)] assms(3) by blast

lemma getitem_mask_again:
  assumes "getitem_col d2 c = Inr col"
    and "\<forall>c\<in>set d2. length (cells c) = L"
  shows "getitem_mask (getitem_mask d2 (isin (cells col) fv))
           (isin (mask_cells (isin (cells col) fv) (cells col)) fv) =
         getitem_mask d2 (isin (cells col) fv)"
proof -
  let ?m = "isin (cells col) fv"
  let ?m' = "isin (mask_cells ?m (cells col)) fv"
  have colin: "col \<in> set d2" using getitem_col_Inr[OF assms(1)] by simp
  have lm: "length ?m = L" using assms(2) colin by (simp add: isin_def)
  have own: "mask_cells ?m (cells col) = filter (\<lambda>x. x \<in> set fv) (cells col)"
    by (simp add: isin_def mask_cells_own)
  have alltrue: "\<forall>b\<in>set ?m'. b" unfolding own by (auto simp: isin_def)
  have lm': "length ?m' = length (filter id ?m)"
    using mask_cells_len[of "cells col" ?m] lm assms(2) colin by (simp add: isin_def)
  have "mask_cells ?m' (mask_cells ?m (cells c')) = mask_cells ?m (cells c')"
    if "c' \<in> set d2" for c'
  proof -
    have "length (cells c') = length ?m" using assms(2) that lm by simp
    then have "length (mask_cells ?m (cells c')) = length (filter id ?m)"
      by (rule mask_cells_len)
    then have "length (mask_cells ?m (cells c')) \<le> length ?m'" using lm' by simp
    then show ?thesis using alltrue by (rule mask_cells_all)
  qed
  then show ?thesis by (simp add: getitem_mask_def)
qed

lemma category_filter_again:
  assumes "category_filter fc fv s2 = Inr s"
    and "df_filtered t = df_filtered s"
    and "(cat_cols t = []) = (cat_cols s2 = [])"
    and "\<forall>c\<in>set (df_filtered s2). length (cells c) = L"
  shows "\<exists>t'. category_filter fc fv t = Inr t' \<and> df_filtered t' = df_filtered s"
proof (cases "cat_cols s2 = []")
  case True
  then show ?thesis using assms(1,2,3) by (simp add: category_filter_def)
next
  case cats: False
  show ?thesis
  proof (cases fc)
    case None
    then show ?thesis using assms(1,2,3) cats by (simp add: category_filter_def)
  next
    case (Some c)
    from assms(1) cats Some obtain col where col: "getitem_col (df_filtered s2) c = Inr col"
      and nr: "\<not> sorted_raises (unique (cells col))"
      by (auto simp: category_filter_def split: sum.splits if_splits)
    show ?thesis
    proof (cases "fv = []")
      case True
      then have "s = s2" using assms(1) cats Some col nr by (simp add: category_filter_def)
      then show ?thesis using assms(2,3) cats Some col nr True
        by (simp add: category_filter_def)
    next
      case False
      let ?m = "isin (cells col) fv"
      have v: "df_filtered s = getitem_mask (df_filtered s2) ?m"
        using assms(1) cats Some col nr False by (auto simp: category_filter_def)
      have col': "getitem_col (df_filtered t) c =
                    Inr (col\<lparr>cells := mask_cells ?m (cells col)\<rparr>)"
        using col by (simp add: assms(2) v getitem_mask_def getitem_col_map)
      have "set (mask_cells ?m (cells col)) \<subseteq> set (cells col)"
        by (simp add: isin_def mask_cells_own)
      then have nr': "\<not> sorted_raises (unique (mask_cells ?m (cells col)))"
        using nr sorted_raises_mono[of "unique (mask_cells ?m (cells col))" "unique (cells col)"]
        by auto
      have "getitem_mask (df_filtered t) (isin (mask_cells ?m (cells col)) fv) = df_filtered s"
        using getitem_mask_again[OF col assms(4), of fv] by (simp add: assms(2) v)
      then show ?thesis using assms(3) cats Some col' nr' False
        by (simp add: category_filter_def)
    qed
  qed
qed

lemma pipeline_steps:
  assumes "filter_pipeline df spec = Inr s"
  shows "\<exists>s2. column_filter (selected_cols spec)
               (row_filter (row_limit spec)
                  \<lparr>df_filtered = df, num_cols = fst (detect_columns df),
                   cat_cols = snd (detect_columns df)\<rparr>) = Inr s2 \<and>
              category_filter (filter_col spec) (filter_values spec) s2 = Inr s"
  using assms by (auto simp: filter_pipeline_def Let_def split: sum.splits)

lemma category_filter_keeps:
  assumes "category_filter fc fv s2 = Inr s"
  shows "cat_cols s = cat_cols s2 \<and> num_cols s = num_cols s2 \<and>
         (df_filtered s = df_filtered s2 \<or> (\<exists>m. df_filtered s = getitem_mask (df_filtered s2) m))"
  using assms by (auto simp: category_filter_def split: if_splits option.splits sum.splits)

lemma getitem_cols_mem: "getitem_cols df sel = Inr d \<Longrightarrow> x \<in> set d \<Longrightarrow> x \<in> set df"
  using getitem_cols_Inr by blast

lemma column_filter_frame:
  assumes "column_filter sel (row_filter n s0) = Inr s2"
  shows "set (df_filtered s2) \<subseteq> set (head n (df_filtered s0)) \<and>
         (sel \<noteq> [] \<longrightarrow> getitem_cols (head n (df_filtered s0)) sel = Inr (df_filtered s2))"
  using assms
  by (auto simp: column_filter_def row_filter_def split: if_splits sum.splits
      dest: getitem_cols_mem)

section \<open>Group counts\<close>

lemma head_uniform:
  assumes "wf_df df"
  shows "\<exists>L. \<forall>c\<in>set (head n df). length (cells c) = L"
  using assms by (auto simp: wf_df_def head_def list_all_iff Let_def)

lemma mask_cells_len_take:
  "length (mask_cells m xs) = length (filter id (take (length xs) m))"
proof (induction xs arbitrary: m)
  case Nil
  then show ?case by (simp add: mask_cells_def)
next
  case (Cons x xs)
  then show ?case by (cases m) (auto simp: mask_cells_def)
qed

lemma getitem_mask_uniform:
  assumes "\<forall>c\<in>set d. length (cells c) = L"
  shows "\<forall>c\<in>set (getitem_mask d m). length (cells c) = length (filter id (take L m))"
  using assms by (auto simp: getitem_mask_def mask_cells_len_take)

lemma view_uniform:
  assumes "wf_df df" "filter_pipeline df spec = Inr s"
  shows "\<exists>L. \<forall>c\<in>set (df_filtered s). length (cells c) = L"
proof -
  from pipeline_steps[OF assms(2)] obtain s2 where
    cf: "column_filter (selected_cols spec) (row_filter (row_limit spec)
           \<lparr>df_filtered = df, num_cols = fst (detect_columns df),
            cat_cols = snd (detect_columns df)\<rparr>) = Inr s2"
    and cat: "category_filter (filter_col spec) (filter_values spec) s2 = Inr s"
    by blast
  have sub: "set (df_filtered s2) \<subseteq> set (head (row_limit spec) df)"
    using column_filter_frame[OF cf] by simp
  obtain L where "\<forall>c\<in>set (head (row_limit spec) df). length (cells c) = L"
    using head_uniform[OF assms(1)] by blast
  then have u2: "\<forall>c\<in>set (df_filtered s2). length (cells c) = L" using sub by blast
  from category_filter_keeps[OF cat]
  have "df_filtered s = df_filtered s2 \<or> (\<exists>m. df_filtered s = getitem_mask (df_filtered s2) m)"
    by simp
  then show ?thesis
  proof
    assume "df_filtered s = df_filtered s2"
    then show ?thesis using u2 by auto
  next
    assume "\<exists>m. df_filtered s = getitem_mask (df_filtered s2) m"
    then obtain m where "df_filtered s = getitem_mask (df_filtered s2) m" by blast
    then show ?thesis using getitem_mask_uniform[OF u2, of m] by auto
  qed
qed

lemma len_df_uniform:
  assumes "\<forall>c\<in>set v. length (cells c) = L" "c \<in> set v"
  shows "len_df v = L"
  using assms by (cases v) (auto simp: len_df_def)

lemma count_list_filter: "P k \<Longrightarrow> count_list (filter P xs) k = count_list xs k"
  by (induction xs) auto

lemma length_present:
  "length (filter (\<lambda>c. c \<noteq> NaN) xs) + count_list xs NaN = length xs"
  by (induction xs) auto

lemma sum_group_counts:
  "sum_list (map (count_list ks) (sort_key f (remdups ks))) = length ks"
proof -
  have "sum_list (map (count_list ks) (sort_key f (remdups ks))) =
        sum (count_list ks) (set (sort_key f (remdups ks)))"
    by (rule sum_list_distinct_conv_sum_set) simp
  also have "\<dots> = sum (count_list ks) (set ks)" by simp
  also have "\<dots> = length ks" by (rule sum_count_set) simp_all
  finally show ?thesis .
qed

lemma groupby_size_counts:
  assumes "getitem_col v x = Inr col"
  shows "\<exists>agg. groupby_size v x = Inr agg \<and>
           (agg = [] \<longleftrightarrow> list_all (\<lambda>c. c = NaN) (cells col)) \<and>
           distinct (map fst agg) \<and> set (map fst agg) = set (cells col) - {NaN} \<and>
           map snd agg = map (count_list (cells col)) (map fst agg) \<and>
           sum_list (map snd agg) + count_list (cells col) NaN = length (cells col)"
proof -
  let ?keys = "filter (\<lambda>c. c \<noteq> NaN) (cells col)"
  let ?names = "sort_key group_rank (remdups ?keys)"
  let ?agg = "map (\<lambda>k. (k, count_list ?keys k)) ?names"
  have g: "groupby_size v x = Inr ?agg" using assms by (simp add: groupby_size_def Let_def)
  have n: "map fst ?agg = ?names" by (simp add: comp_def)
  have e: "(?agg = []) = list_all (\<lambda>c. c = NaN) (cells col)"
  proof -
    have "(?agg = []) = (set ?names = {})" by (simp del: set_sort set_remdups)
    also have "\<dots> = (set ?keys = {})" by simp
    also have "\<dots> = list_all (\<lambda>c. c = NaN) (cells col)"
      by (auto simp: list_all_iff filter_empty_conv)
    finally show ?thesis .
  qed
  have c: "map snd ?agg = map (count_list (cells col)) ?names"
    by (auto simp: comp_def count_list_filter)
  have "sum_list (map snd ?agg) = length ?keys"
    using sum_group_counts[of ?keys group_rank] by (simp add: comp_def)
  then have t: "sum_list (map snd ?agg) + count_list (cells col) NaN = length (cells col)"
    using length_present[of "cells col"] by simp
  have s: "set ?names = set (cells col) - {NaN}" by auto
  have c': "map snd ?agg = map (count_list (cells col)) (map fst ?agg)"
    unfolding n by (rule c)
  have d: "distinct (map fst ?agg)" unfolding n by simp
  have s': "set (map fst ?agg) = set (cells col) - {NaN}" unfolding n by (rule s)
  show ?thesis
  proof (intro exI conjI)
    show "groupby_size v x = Inr ?agg" by (rule g)
  qed (rule e d s' c' t)+
qed

section \<open>Correlations\<close>







lemma corr_entry:
  "i < length d \<Longrightarrow> j < length d \<Longrightarrow>
   corr d ! i ! j = pearson (cells (d ! max i j)) (cells (d ! min i j))"
  by (simp add: corr_def)



text \<open>Unfolding the frame operations on a concrete frame.\<close>

lemmas frame_defs = filter_pipeline_def detect_columns_def row_filter_def column_filter_def
  category_filter_def select_dtypes_include_number_def select_dtypes_exclude_number_def
  columns_def head_def getitem_col_def getitem_mask_def mask_cells_def isin_def unique_def
  sorted_raises_def is_str_def is_number_def len_df_def wf_df_def empty_df_def Let_def

lemma sales_wf: "wf_df sales_df"
  by (simp add: sales_df_def frame_defs)

lemma sales_defaults:
  "filter_pipeline sales_df defaults =
     Inr \<lparr>df_filtered = sales_df, num_cols = [''Sales''], cat_cols = [''Region'']\<rparr>"
  by (simp add: sales_df_def defaults_def frame_defs)

lemma west_pipeline: "filter_pipeline sales_df region_west =
   Inr \<lparr>df_filtered = [\<lparr>cname = ''Region'', dtype = Object, cells = []\<rparr>,
      \<lparr>cname = ''Sales'', dtype = Int64, cells = []\<rparr>], num_cols = [''Sales''], cat_cols = [''Region'']\<rparr>"
  by (simp add: sales_df_def region_west_def defaults_def frame_defs)

lemma south_pipeline: "filter_pipeline sales_df region_south =
   Inr \<lparr>df_filtered = [\<lparr>cname = ''Region'', dtype = Object, cells = [Str ''South'']\<rparr>,
      \<lparr>cname = ''Sales'', dtype = Int64, cells = [Num 20]\<rparr>], num_cols = [''Sales''], cat_cols = [''Region'']\<rparr>"
  by (simp add: sales_df_def region_south_def defaults_def frame_defs)

lemma gaps_defaults:
  "filter_pipeline gaps_df defaults =
     Inr \<lparr>df_filtered = gaps_df, num_cols = [''Sales''], cat_cols = [''Region'']\<rparr>"
  by (simp add: gaps_df_def defaults_def frame_defs)

lemma sales_pie:
  "build_chart \<lparr>df_filtered = sales_df, num_cols = [''Sales''], cat_cols = [''Region'']\<rparr>
     Pie ''Region'' None None =
     Success (Px_pie [2, 1] [Str ''North'', Str ''South''] None ''Distribution of Region'')"
  by (simp add: sales_df_def build_chart_def pie_chart_def groupby_size_def frame_defs
      group_rank_def less_eq_prod_def less_prod_def list_le_def list_less_def less_eq_char_def less_char_def)




section \<open>Claims about the data filters\<close>

text \<open>
  Claim C1, as amended. Let the frame be well formed, the row limit at least 1, the
  selected columns columns of the frame, the category column none or one of the
  categorical columns the select box offers, and let line 147 not raise for it. Then
  the filters return a state; its frame has at most \<open>min row_limit (len df)\<close> rows; its
  columns are the selected columns when the selection is not empty, and all columns of
  the loaded frame when it is.
\<close>

theorem filter_pipeline_returns_bounded_view:
  assumes "wf_df df"
    and "1 \<le> row_limit spec"
    and "set (selected_cols spec) \<subseteq> set (columns df)"
    and "filter_col spec \<in> set (None # map Some
           (filter (\<lambda>c. selected_cols spec = [] \<or> c \<in> set (selected_cols spec))
              (snd (detect_columns df))))"
    and "\<not> value_choices_raise df spec"
  shows "\<exists>s. filter_pipeline df spec = Inr s \<and>
             len_df (df_filtered s) \<le> min (nat (row_limit spec)) (len_df df) \<and>
             columns (df_filtered s) =
               (if selected_cols spec = [] then columns df else selected_cols spec)"
proof -
  let ?n = "row_limit spec" and ?sel = "selected_cols spec"
  let ?d1 = "head ?n df"
  let ?L = "min (nat ?n) (len_df df)"
  let ?s0 = "\<lparr>df_filtered = df, num_cols = fst (detect_columns df),
               cat_cols = snd (detect_columns df)\<rparr>"
  have d1len: "\<forall>c\<in>set ?d1. length (cells c) \<le> ?L"
    using head_lengths[OF assms(1), of ?n] assms(2) by simp
  have d1dist: "distinct (columns ?d1)" using assms(1) by (simp add: wf_df_def)
  obtain s2 where s2: "column_filter ?sel (row_filter ?n ?s0) = Inr s2"
    and sub: "set (df_filtered s2) \<subseteq> set ?d1"
    and cols: "columns (df_filtered s2) = (if ?sel = [] then columns df else ?sel)"
    and cats: "set (cat_cols s2) \<subseteq> set (columns (df_filtered s2))"
  proof (cases "?sel = []")
    case True
    show ?thesis
      by (rule that[of "row_filter ?n ?s0"])
        (use True detect_union[of df] in \<open>auto simp: column_filter_def row_filter_def\<close>)
  next
    case False
    obtain d where d: "getitem_cols ?d1 ?sel = Inr d"
      using getitem_cols_total[of ?sel ?d1] assms(3) by auto
    show ?thesis
      by (rule that[of "\<lparr>df_filtered = d,
            num_cols = filter (\<lambda>col. col \<in> set ?sel) (fst (detect_columns df)),
            cat_cols = filter (\<lambda>col. col \<in> set ?sel) (snd (detect_columns df))\<rparr>"])
        (use False d getitem_cols_Inr[OF d] in \<open>auto simp: column_filter_def row_filter_def\<close>)
  qed
  have s2len: "\<forall>c\<in>set (df_filtered s2). length (cells c) \<le> ?L" using sub d1len by blast
  have "\<exists>s. category_filter (filter_col spec) (filter_values spec) s2 = Inr s \<and>
            (\<forall>c\<in>set (df_filtered s). length (cells c) \<le> ?L) \<and>
            columns (df_filtered s) = columns (df_filtered s2)"
  proof (cases "filter_col spec")
    case None
    then show ?thesis using s2len by (simp add: category_filter_def)
  next
    case (Some c)
    show ?thesis
    proof (cases "cat_cols s2 = []")
      case True
      then show ?thesis using s2len by (simp add: category_filter_def)
    next
      case False
      have cin: "c \<in> set (columns (df_filtered s2))"
        using assms(4) Some cols detect_union[of df] by (auto split: if_splits)
      then obtain col where col: "getitem_col (df_filtered s2) c = Inr col"
        using getitem_col_mem by blast
      have "getitem_col (df_filtered s2) c = getitem_col ?d1 c"
        by (rule getitem_col_sub[OF sub d1dist cin])
      then have "getitem_col ?d1 c = Inr col" using col by simp
      then have nr: "\<not> sorted_raises (unique (cells col))"
        using assms(5) Some by (simp add: value_choices_raise_def)
      show ?thesis
        using Some False col nr s2len getitem_mask_lengths[OF s2len]
        by (simp add: category_filter_def)
    qed
  qed
  then obtain s where s: "category_filter (filter_col spec) (filter_values spec) s2 = Inr s"
    and slen: "\<forall>c\<in>set (df_filtered s). length (cells c) \<le> ?L"
    and scols: "columns (df_filtered s) = columns (df_filtered s2)" by blast
  have "filter_pipeline df spec = Inr s" using s2 s by (simp add: filter_pipeline_def)
  then show ?thesis using len_df_le[OF slen] scols cols by simp
qed

theorem filter_pipeline_returns_bounded_view_witness:
  "wf_df sales_df \<and> 1 \<le> row_limit region_south \<and>
   set (selected_cols region_south) \<subseteq> set (columns sales_df) \<and>
   \<not> value_choices_raise sales_df region_south \<and>
   filter_pipeline sales_df region_south =
     Inr \<lparr>df_filtered = [\<lparr>cname = ''Region'', dtype = Object, cells = [Str ''South'']\<rparr>,
       \<lparr>cname = ''Sales'', dtype = Int64, cells = [Num 20]\<rparr>],
       num_cols = [''Sales''], cat_cols = [''Region'']\<rparr> \<and>
   len_df [\<lparr>cname = ''Region'', dtype = Object, cells = [Str ''South'']\<rparr>,
       \<lparr>cname = ''Sales'', dtype = Int64, cells = [Num 20]\<rparr>] \<le> min (nat (row_limit region_south)) (len_df sales_df)"
proof -
  have a: "1 \<le> row_limit region_south" by (simp add: region_south_def defaults_def)
  have b: "set (selected_cols region_south) \<subseteq> set (columns sales_df)"
    by (simp add: region_south_def defaults_def sales_df_def columns_def)
  have c: "filter_col region_south \<in> set (None # map Some
           (filter (\<lambda>c. selected_cols region_south = [] \<or> c \<in> set (selected_cols region_south))
              (snd (detect_columns sales_df))))"
    by (simp add: region_south_def defaults_def sales_df_def frame_defs)
  have d: "\<not> value_choices_raise sales_df region_south"
    by (simp add: value_choices_raise_def region_south_def defaults_def sales_df_def frame_defs)
  from filter_pipeline_returns_bounded_view[OF sales_wf a b c d]
  show ?thesis using sales_wf a b d south_pipeline by auto
qed

text \<open>
  Claim C1 as stated fails: with no column selected the column filter is skipped and the
  frame keeps both columns, which are not among the (no) selected ones.
\<close>

theorem empty_selection_keeps_all_columns:
  "filter_pipeline sales_df no_columns =
     Inr \<lparr>df_filtered = sales_df, num_cols = [''Sales''], cat_cols = [''Region'']\<rparr> \<and>
   \<not> set (columns sales_df) \<subseteq> set (selected_cols no_columns)"
  by (simp add: sales_df_def no_columns_def defaults_def frame_defs)

text \<open>
  Claim C6. An empty value selection leaves the rows alone whenever the category filter
  returns (\<open>category_filter_no_values\<close>); but the choices of the value widget are
  sorted first, and on a text column with a missing value that raises: the filters do not
  return at all.
\<close>

theorem empty_selection_on_gaps_raises:
  "filter_values region_unset = [] \<and> filter_pipeline gaps_df region_unset = Inl TypeError"
  by (simp add: gaps_df_def region_unset_def defaults_def frame_defs)

text \<open>
  Claim C8. When the filters return a frame without rows, the script shows the warning
  and stops before the statistics and the chart tab.
\<close>

theorem empty_view_stops_with_warning:
  assumes "\<not> empty_df df" and "filter_pipeline df spec = Inr s"
    and "len_df (df_filtered s) = 0"
  shows "run_dashboard df spec r =
           Stopped (St_warning
             (warning_sign @ '' No data matches your filters. Please adjust filters.''))"
  using assms detect_nonempty[of df] by (auto simp: run_dashboard_def empty_df_def)

theorem empty_view_stops_with_warning_witness:
  "\<not> empty_df sales_df \<and>
   len_df [\<lparr>cname = ''Region'', dtype = Object, cells = []\<rparr>,
      \<lparr>cname = ''Sales'', dtype = Int64, cells = []\<rparr>] = 0 \<and>
   run_dashboard sales_df region_west
     \<lparr>chart_kind = Bar, x_axis = ''Region'', y_axis = Some ''Sales'', group_by = None\<rparr> =
     Stopped (St_warning
       (warning_sign @ '' No data matches your filters. Please adjust filters.''))"
proof -
  have a: "\<not> empty_df sales_df" by (simp add: sales_df_def frame_defs)
  have b: "len_df (df_filtered \<lparr>df_filtered = [\<lparr>cname = ''Region'', dtype = Object, cells = []\<rparr>,
      \<lparr>cname = ''Sales'', dtype = Int64, cells = []\<rparr>], num_cols = [''Sales''], cat_cols = [''Region'']\<rparr>) = 0"
    by (simp add: len_df_def)
  show ?thesis
    using empty_view_stops_with_warning[OF a west_pipeline b] a b by simp
qed

text \<open>
  Claim C7. Running the filters with the same widget values on the frame they returned
  returns that frame again.
\<close>

theorem filter_pipeline_idempotent:
  assumes "wf_df df" and "1 \<le> row_limit spec" and "filter_pipeline df spec = Inr s"
  shows "\<exists>s'. filter_pipeline (df_filtered s) spec = Inr s' \<and> df_filtered s' = df_filtered s"
proof -
  let ?n = "row_limit spec" and ?sel = "selected_cols spec"
  let ?v = "df_filtered s"
  let ?t0 = "\<lparr>df_filtered = ?v, num_cols = fst (detect_columns ?v),
               cat_cols = snd (detect_columns ?v)\<rparr>"
  have n0: "0 \<le> ?n" using assms(2) by simp
  from pipeline_steps[OF assms(3)] obtain s2 where
    cf: "column_filter ?sel (row_filter ?n
           \<lparr>df_filtered = df, num_cols = fst (detect_columns df),
            cat_cols = snd (detect_columns df)\<rparr>) = Inr s2"
    and cat: "category_filter (filter_col spec) (filter_values spec) s2 = Inr s"
    by blast
  from column_filter_frame[OF cf] have
    sub: "set (df_filtered s2) \<subseteq> set (head ?n df)"
    and sel: "?sel \<noteq> [] \<Longrightarrow> getitem_cols (head ?n df) ?sel = Inr (df_filtered s2)"
    by auto
  have len2: "\<forall>c\<in>set (df_filtered s2). length (cells c) = min (nat ?n) (len_df df)"
    by (rule head_lengths_eq[OF assms(1) n0 sub])
  from category_filter_keeps[OF cat] have
    cats: "cat_cols s = cat_cols s2"
    and v: "?v = df_filtered s2 \<or> (\<exists>m. ?v = getitem_mask (df_filtered s2) m)"
    by auto
  have rf: "row_filter ?n ?t0 = ?t0"
    using head_id[OF n0 pipeline_lengths[OF assms(1) n0 assms(3)]] by (simp add: row_filter_def)
  have again: "getitem_cols ?v ?sel = Inr ?v" if "?sel \<noteq> []"
  proof -
    have g: "getitem_cols (df_filtered s2) ?sel = Inr (df_filtered s2)"
      using getitem_cols_again[OF sel[OF that]] .
    from v show ?thesis
    proof
      assume "?v = df_filtered s2"
      then show ?thesis using g by simp
    next
      assume "\<exists>m. ?v = getitem_mask (df_filtered s2) m"
      then obtain m where m: "?v = getitem_mask (df_filtered s2) m" by blast
      show ?thesis
        unfolding m getitem_mask_def
        by (simp add: getitem_cols_map_frame g)
    qed
  qed
  have catv: "set (snd (detect_columns ?v)) = set (cat_cols s)"
    using pipeline_classified(2)[OF assms(1,3)] by simp
  obtain t where t: "column_filter ?sel (row_filter ?n ?t0) = Inr t"
    and tv: "df_filtered t = ?v" and tc: "(cat_cols t = []) = (cat_cols s2 = [])"
  proof (cases "?sel = []")
    case True
    show ?thesis
      by (rule that[of ?t0]) (use True rf catv cats in \<open>auto simp: column_filter_def\<close>)
  next
    case False
    have "set (cat_cols s) \<subseteq> set ?sel"
      using pipeline_cols(2)[OF assms(3)] False by auto
    then have "set (filter (\<lambda>col. col \<in> set ?sel) (snd (detect_columns ?v))) = set (cat_cols s)"
      using catv by auto
    then have e: "(filter (\<lambda>col. col \<in> set ?sel) (snd (detect_columns ?v)) = []) = (cat_cols s2 = [])"
      using cats by (metis set_empty)
    show ?thesis
      by (rule that[of "\<lparr>df_filtered = ?v,
            num_cols = filter (\<lambda>col. col \<in> set ?sel) (fst (detect_columns ?v)),
            cat_cols = filter (\<lambda>col. col \<in> set ?sel) (snd (detect_columns ?v))\<rparr>"])
        (use False rf again e in \<open>auto simp: column_filter_def\<close>)
  qed
  from category_filter_again[OF cat tv tc len2] obtain t' where
    "category_filter (filter_col spec) (filter_values spec) t = Inr t'" "df_filtered t' = ?v"
    by blast
  then show ?thesis using t by (simp add: filter_pipeline_def)
qed

theorem filter_pipeline_idempotent_witness:
  "wf_df sales_df \<and> 1 \<le> row_limit region_south \<and>
   filter_pipeline sales_df region_south =
     Inr \<lparr>df_filtered = [\<lparr>cname = ''Region'', dtype = Object, cells = [Str ''South'']\<rparr>,
       \<lparr>cname = ''Sales'', dtype = Int64, cells = [Num 20]\<rparr>],
       num_cols = [''Sales''], cat_cols = [''Region'']\<rparr> \<and>
   filter_pipeline [\<lparr>cname = ''Region'', dtype = Object, cells = [Str ''South'']\<rparr>,
       \<lparr>cname = ''Sales'', dtype = Int64, cells = [Num 20]\<rparr>] region_south =
     Inr \<lparr>df_filtered = [\<lparr>cname = ''Region'', dtype = Object, cells = [Str ''South'']\<rparr>,
       \<lparr>cname = ''Sales'', dtype = Int64, cells = [Num 20]\<rparr>],
       num_cols = [''Sales''], cat_cols = [''Region'']\<rparr>"
proof -
  have a: "1 \<le> row_limit region_south" by (simp add: region_south_def defaults_def)
  have b: "filter_pipeline [\<lparr>cname = ''Region'', dtype = Object, cells = [Str ''South'']\<rparr>,
       \<lparr>cname = ''Sales'', dtype = Int64, cells = [Num 20]\<rparr>] region_south =
     Inr \<lparr>df_filtered = [\<lparr>cname = ''Region'', dtype = Object, cells = [Str ''South'']\<rparr>,
       \<lparr>cname = ''Sales'', dtype = Int64, cells = [Num 20]\<rparr>],
       num_cols = [''Sales''], cat_cols = [''Region'']\<rparr>"
    by (simp add: region_south_def defaults_def frame_defs)
  from filter_pipeline_idempotent[OF sales_wf a south_pipeline]
  show ?thesis using sales_wf a south_pipeline b by simp
qed

section \<open>Claims about the column detection\<close>

text \<open>
  Claim C9. On the loaded frame the numeric list holds the names of the columns with an
  integer or floating point storage type and the categorical list the names of all
  others; the two lists together are the column names of the frame and share no name.
  The same holds, for the frame and the lists the filters leave, after the column filter
  has run.
\<close>

theorem classification_is_partition:
  assumes "wf_df df" and "filter_pipeline df spec = Inr s"
  shows "(fst (detect_columns df) = columns (select_dtypes_include_number df) \<and>
          snd (detect_columns df) = columns (select_dtypes_exclude_number df) \<and>
          set (fst (detect_columns df)) \<union> set (snd (detect_columns df)) = set (columns df) \<and>
          set (fst (detect_columns df)) \<inter> set (snd (detect_columns df)) = {}) \<and>
         (set (num_cols s) = set (columns (select_dtypes_include_number (df_filtered s))) \<and>
          set (cat_cols s) = set (columns (select_dtypes_exclude_number (df_filtered s))) \<and>
          set (num_cols s) \<union> set (cat_cols s) = set (columns (df_filtered s)) \<and>
          set (num_cols s) \<inter> set (cat_cols s) = {})"
proof -
  have a: "set (num_cols s) = set (columns (select_dtypes_include_number (df_filtered s)))"
    and b: "set (cat_cols s) = set (columns (select_dtypes_exclude_number (df_filtered s)))"
    using pipeline_classified[OF assms] by (simp_all add: detect_columns_def)
  have c: "set (num_cols s) \<union> set (cat_cols s) = set (columns (df_filtered s))"
    using pipeline_classified[OF assms] detect_union[of "df_filtered s"] by simp
  have d: "set (fst (detect_columns df)) \<inter> set (snd (detect_columns df)) = {}"
    using detect_disjoint assms(1) by (simp add: wf_df_def)
  show ?thesis
    using a b c d pipeline_distinct[OF assms] detect_union[of df]
    by (simp add: detect_columns_def)
qed

theorem classification_is_partition_witness:
  "wf_df sales_df \<and>
   filter_pipeline sales_df defaults =
     Inr \<lparr>df_filtered = sales_df, num_cols = [''Sales''], cat_cols = [''Region'']\<rparr> \<and>
   set (num_cols \<lparr>df_filtered = sales_df, num_cols = [''Sales''], cat_cols = [''Region'']\<rparr>) \<union>
   set (cat_cols \<lparr>df_filtered = sales_df, num_cols = [''Sales''], cat_cols = [''Region'']\<rparr>) =
   set (columns
     (df_filtered \<lparr>df_filtered = sales_df, num_cols = [''Sales''], cat_cols = [''Region'']\<rparr>))"
  using classification_is_partition[OF sales_wf sales_defaults] sales_wf sales_defaults
  by blast

section \<open>Claims about the chart tab\<close>

text \<open>
  Claim C2. For Bar, Line, Scatter, Box Plot, Sunburst, Violin and Area, a request
  without a Y axis ends in the warning of the branch: a \<open>Failure\<close> with its message,
  never a \<open>Fault\<close>.
\<close>

theorem missing_y_is_failure:
  assumes "chart \<in> {Bar, Line, Scatter, Box_Plot, Sunburst, Violin, Area}"
  shows "build_chart s chart x None g =
           Failure (if chart = Sunburst
                    then warning_sign @ '' Sunburst needs categorical X and numeric Y''
                    else select_y_msg)"
  using assms by (auto simp: build_chart_def)

theorem missing_y_is_failure_witness:
  "Scatter \<in> {Bar, Line, Scatter, Box_Plot, Sunburst, Violin, Area} \<and>
   build_chart \<lparr>df_filtered = sales_df, num_cols = [''Sales''], cat_cols = [''Region'']\<rparr>
     Scatter ''Region'' None None = Failure select_y_msg"
  using missing_y_is_failure[of Scatter
      "\<lparr>df_filtered = sales_df, num_cols = [''Sales''], cat_cols = [''Region'']\<rparr>"
      "''Region''" None]
  by simp

text \<open>
  Claim C3. In every state the filters leave, a Scatter request with a categorical X
  column and a numeric Y column ends in a \<open>Failure\<close> whose message quotes the X
  column.
\<close>

theorem scatter_categorical_x_fails:
  assumes "wf_df df" and "filter_pipeline df spec = Inr s"
    and "x \<in> set (cat_cols s)" and "y \<in> set (num_cols s)"
  shows "build_chart s Scatter x (Some y) g =
           Failure (warning_sign @ '' X axis '' @ [CHR 0x27] @ x @ [CHR 0x27] @
                    '' is not numeric. Scatter needs numeric X & Y'')"
proof -
  have "x \<notin> set (num_cols s)"
    using pipeline_distinct[OF assms(1,2)] assms(3) by blast
  then show ?thesis by (simp add: build_chart_def not_numeric_msg_def)
qed

theorem scatter_categorical_x_fails_witness:
  "wf_df sales_df \<and>
   filter_pipeline sales_df defaults =
     Inr \<lparr>df_filtered = sales_df, num_cols = [''Sales''], cat_cols = [''Region'']\<rparr> \<and>
   build_chart \<lparr>df_filtered = sales_df, num_cols = [''Sales''], cat_cols = [''Region'']\<rparr>
     Scatter ''Region'' (Some ''Sales'') None =
     Failure (warning_sign @ '' X axis '' @ [CHR 0x27] @ ''Region'' @ [CHR 0x27] @
              '' is not numeric. Scatter needs numeric X & Y'')"
  using scatter_categorical_x_fails[OF sales_wf sales_defaults, of "''Region''" "''Sales''" None]
    sales_wf sales_defaults
  by simp

text \<open>
  Claim C10. In every state the filters leave, the Y axis a select box can return is
  \<open>None\<close> or one of the numeric columns of the filtered frame; so when the Bar, Line or
  Area branch hands a figure to plotly, its Y column is numeric.
\<close>

theorem y_axis_numeric_or_none:
  assumes "wf_df df" and "filter_pipeline df spec = Inr s" and "selectable s r"
  shows "(y_axis r = None \<or>
          (\<exists>y. y_axis r = Some y \<and> y \<in> set (num_cols s) \<and>
               y \<in> set (columns (select_dtypes_include_number (df_filtered s))))) \<and>
         (chart_kind r \<in> {Bar, Line, Area} \<longrightarrow>
          (\<forall>fig. build_chart s (chart_kind r) (x_axis r) (y_axis r) (group_by r) = Success fig \<longrightarrow>
             (\<exists>y. y_axis r = Some y \<and>
                  y \<in> set (columns (select_dtypes_include_number (df_filtered s))))))"
proof -
  have n: "set (num_cols s) = set (columns (select_dtypes_include_number (df_filtered s)))"
    using pipeline_classified(1)[OF assms(1,2)] by (simp add: detect_columns_def)
  have y: "y_axis r = None \<or> (\<exists>y. y_axis r = Some y \<and> y \<in> set (num_cols s))"
    using assms(3) by (auto simp: selectable_def y_options_def split: if_splits)
  show ?thesis using y n by (auto simp: build_chart_def)
qed

theorem y_axis_numeric_or_none_witness:
  "wf_df sales_df \<and>
   filter_pipeline sales_df defaults =
     Inr \<lparr>df_filtered = sales_df, num_cols = [''Sales''], cat_cols = [''Region'']\<rparr> \<and>
   selectable \<lparr>df_filtered = sales_df, num_cols = [''Sales''], cat_cols = [''Region'']\<rparr>
     \<lparr>chart_kind = Bar, x_axis = ''Region'', y_axis = Some ''Sales'', group_by = None\<rparr> \<and>
   ''Sales'' \<in> set (columns (select_dtypes_include_number sales_df))"
proof -
  have a: "selectable \<lparr>df_filtered = sales_df, num_cols = [''Sales''], cat_cols = [''Region'']\<rparr>
     \<lparr>chart_kind = Bar, x_axis = ''Region'', y_axis = Some ''Sales'', group_by = None\<rparr>"
    by (simp add: selectable_def x_options_def y_options_def group_options_def)
  from y_axis_numeric_or_none[OF sales_wf sales_defaults a]
  show ?thesis using sales_wf sales_defaults a by simp
qed

text \<open>
  Claim C5, as amended. In every state the filters leave, a Pie or Donut request on a
  categorical column groups the rows by that column and hands plotly one name and one
  count per value; the counts add up to the number of rows whose value is not missing,
  that is the row count less the rows with a missing value. When every value is missing
  there is no group, and the branch ends in the warning ``No data to display''.
\<close>

theorem pie_counts_rows_with_value:
  assumes "wf_df df" and "filter_pipeline df spec = Inr s" and "x \<in> set (cat_cols s)"
    and "chart = Pie \<or> chart = Donut"
  shows "\<exists>col. getitem_col (df_filtered s) x = Inr col \<and>
           length (cells col) = len_df (df_filtered s) \<and>
           (if list_all (\<lambda>c. c = NaN) (cells col)
            then build_chart s chart x y g = Failure no_data_msg
            else \<exists>vals names.
                   build_chart s chart x y g =
                     Success (Px_pie vals names (if chart = Pie then None else Some (3 / 10))
                                (''Distribution of '' @ x)) \<and>
                   distinct names \<and> set names = set (cells col) - {NaN} \<and>
                   vals = map (count_list (cells col)) names \<and>
                   sum_list vals + count_list (cells col) NaN = len_df (df_filtered s))"
proof -
  have "x \<in> set (columns (df_filtered s))"
    using pipeline_classified(2)[OF assms(1,2)] detect_union[of "df_filtered s"] assms(3)
    by auto
  then obtain col where col: "getitem_col (df_filtered s) x = Inr col"
    using getitem_col_mem by blast
  then have colin: "col \<in> set (df_filtered s)" using getitem_col_Inr by blast
  obtain L where "\<forall>c\<in>set (df_filtered s). length (cells c) = L"
    using view_uniform[OF assms(1,2)] by blast
  then have len: "length (cells col) = len_df (df_filtered s)"
    using len_df_uniform[of "df_filtered s" L col] colin by simp
  from groupby_size_counts[OF col] obtain agg where
    agg: "groupby_size (df_filtered s) x = Inr agg"
    and e: "(agg = []) = list_all (\<lambda>c. c = NaN) (cells col)"
    and d: "distinct (map fst agg)"
    and st: "set (map fst agg) = set (cells col) - {NaN}"
    and c: "map snd agg = map (count_list (cells col)) (map fst agg)"
    and t: "sum_list (map snd agg) + count_list (cells col) NaN = length (cells col)"
    by blast
  have b: "build_chart s chart x y g =
             (if agg = [] then Failure no_data_msg
              else Success (Px_pie (map snd agg) (map fst agg)
                     (if chart = Pie then None else Some (3 / 10)) (''Distribution of '' @ x)))"
  proof -
    have p: "pie_chart s x hole =
               (if agg = [] then Failure no_data_msg
                else Success (Px_pie (map snd agg) (map fst agg) hole (''Distribution of '' @ x)))"
      for hole
      using assms(3) agg by (simp add: pie_chart_def)
    from assms(4) show ?thesis
    proof
      assume "chart = Pie"
      then show ?thesis by (simp add: build_chart_def p)
    next
      assume "chart = Donut"
      then show ?thesis by (simp add: build_chart_def p)
    qed
  qed
  show ?thesis
  proof (intro exI[of _ col] conjI)
    show "getitem_col (df_filtered s) x = Inr col" by (rule col)
    show "length (cells col) = len_df (df_filtered s)" by (rule len)
    show "if list_all (\<lambda>c. c = NaN) (cells col)
            then build_chart s chart x y g = Failure no_data_msg
            else \<exists>vals names.
                   build_chart s chart x y g =
                     Success (Px_pie vals names (if chart = Pie then None else Some (3 / 10))
                                (''Distribution of '' @ x)) \<and>
                   distinct names \<and> set names = set (cells col) - {NaN} \<and>
                   vals = map (count_list (cells col)) names \<and>
                   sum_list vals + count_list (cells col) NaN = len_df (df_filtered s)"
    proof (cases "agg = []")
      case True
      then show ?thesis using b e by simp
    next
      case False
      then have ne: "\<not> list_all (\<lambda>c. c = NaN) (cells col)" using e by simp
      have "build_chart s chart x y g =
                     Success (Px_pie (map snd agg) (map fst agg)
                        (if chart = Pie then None else Some (3 / 10))
                                (''Distribution of '' @ x)) \<and>
                   distinct (map fst agg) \<and> set (map fst agg) = set (cells col) - {NaN} \<and>
                   map snd agg = map (count_list (cells col)) (map fst agg) \<and>
                   sum_list (map snd agg) + count_list (cells col) NaN = len_df (df_filtered s)"
        using b False d st c t len by simp
      then have "\<exists>vals names.
                   build_chart s chart x y g =
                     Success (Px_pie vals names (if chart = Pie then None else Some (3 / 10))
                                (''Distribution of '' @ x)) \<and>
                   distinct names \<and> set names = set (cells col) - {NaN} \<and>
                   vals = map (count_list (cells col)) names \<and>
                   sum_list vals + count_list (cells col) NaN = len_df (df_filtered s)"
        by (intro exI[of _ "map snd agg"] exI[of _ "map fst agg"])
      then show ?thesis using ne by (simp only: if_False)
    qed
  qed
qed

theorem pie_counts_rows_with_value_witness:
  "wf_df sales_df \<and>
   filter_pipeline sales_df defaults =
     Inr \<lparr>df_filtered = sales_df, num_cols = [''Sales''], cat_cols = [''Region'']\<rparr> \<and>
   ''Region'' \<in> set (cat_cols
      \<lparr>df_filtered = sales_df, num_cols = [''Sales''], cat_cols = [''Region'']\<rparr>) \<and>
   (\<exists>col. getitem_col sales_df ''Region'' = Inr col \<and> length (cells col) = len_df sales_df) \<and>
   build_chart \<lparr>df_filtered = sales_df, num_cols = [''Sales''], cat_cols = [''Region'']\<rparr>
     Pie ''Region'' None None =
     Success (Px_pie [2, 1] [Str ''North'', Str ''South''] None ''Distribution of Region'') \<and>
   sum_list [2, 1 :: nat] = len_df sales_df"
proof -
  have a: "''Region'' \<in> set (cat_cols
      \<lparr>df_filtered = sales_df, num_cols = [''Sales''], cat_cols = [''Region'']\<rparr>)" by simp
  have b: "Pie = Pie \<or> Pie = Donut" by simp
  from pie_counts_rows_with_value[OF sales_wf sales_defaults a b, of None None]
  obtain col where "getitem_col sales_df ''Region'' = Inr col"
    "length (cells col) = len_df sales_df" by auto
  moreover have "sum_list [2, 1 :: nat] = len_df sales_df"
    by (simp add: sales_df_def len_df_def)
  ultimately show ?thesis using sales_wf sales_defaults sales_pie by auto
qed

text \<open>
  Claim C5 as stated fails: a row whose value is missing belongs to no group, so on a
  frame of three rows the counts add up to two.
\<close>

theorem pie_skips_missing_rows:
  "filter_pipeline gaps_df defaults =
     Inr \<lparr>df_filtered = gaps_df, num_cols = [''Sales''], cat_cols = [''Region'']\<rparr> \<and>
   build_chart \<lparr>df_filtered = gaps_df, num_cols = [''Sales''], cat_cols = [''Region'']\<rparr>
     Pie ''Region'' None None =
     Success (Px_pie [2] [Str ''North''] None ''Distribution of Region'') \<and>
   len_df gaps_df = 3 \<and> sum_list [2 :: nat] \<noteq> len_df gaps_df"
  by (simp add: gaps_defaults)
     (simp add: gaps_df_def build_chart_def pie_chart_def groupby_size_def frame_defs)




end
